theory Spec2Isabelle
  imports Main "HOL-Library.Word"
begin

section \<open>The read proxy of package lease (src/lease/read_proxy.go)\<close>

text \<open>
  The proxy talks to four kinds of collaborators whose code is outside the file: the
  file leaser, the read leases and read/write leases it hands out, and the reader that
  the user's refresh function returns. They are modelled as an environment: a record of
  functions over an arbitrary external state \<open>'w\<close>, about which nothing is assumed.
  Every call to a collaborator is recorded, with its result, in a log of calls, so that
  "is called", "is called once" and "is called before" are statements about that log.

  Conventions of the translation:
  \<^item> lease and reader objects are handles (natural numbers); a nil interface value
    is \<open>None\<close> where the code tests for nil (the field \<open>wrapped\<close>);
  \<^item> a Go result \<open>(value, err)\<close> whose value is an interface is a sum, \<open>Inl\<close> the
    error; a result that carries a count or an offset besides the error is a pair
    with an \<open>error option\<close>, since the code returns both verbatim;
  \<^item> \<open>int64\<close> is a 64-bit word; Go's \<open>int\<close> values are only passed through and are
    integers;
  \<^item> the byte slice \<open>p\<close> is written in place by the lease; the model returns the new
    contents next to the count;
  \<^item> the mutex \<open>mu\<close> is held for the whole of each method; the model is sequential and
    leaves it out.
\<close>

type_synonym int64 = "64 word"
type_synonym bytes = "8 word list"
type_synonym ReadLease = nat
type_synonym ReadWriteLease = nat
type_synonym ReadCloser = nat
type_synonym Context = nat

text \<open>
  Errors. \<open>RevokedError\<close> is the one error type the code tests for; \<open>ExternalError\<close>
  stands for any other error a collaborator returns; \<open>Errorf\<close> is
  \<^verbatim>\<open>fmt.Errorf(format, err)\<close>, which is never a \<open>*RevokedError\<close>; \<open>ErrorfCopied\<close> is
  the message of the size check.
\<close>

datatype error =
    RevokedError
  | ExternalError string
  | Errorf string error
  | ErrorfCopied int64 int64

record 'w env =
  leaser_NewFile :: "'w \<Rightarrow> (error + ReadWriteLease) \<times> 'w"
  user_f :: "'w \<Rightarrow> (error + ReadCloser) \<times> 'w"
  io_Copy :: "ReadWriteLease \<Rightarrow> ReadCloser \<Rightarrow> 'w \<Rightarrow> (int64 \<times> error option) \<times> 'w"
  rc_Close :: "ReadCloser \<Rightarrow> 'w \<Rightarrow> error option \<times> 'w"
  rwl_Downgrade :: "ReadWriteLease \<Rightarrow> 'w \<Rightarrow> (error + ReadLease) \<times> 'w"
  rwl_Read :: "ReadWriteLease \<Rightarrow> bytes \<Rightarrow> 'w \<Rightarrow> (bytes \<times> int \<times> error option) \<times> 'w"
  rwl_Seek :: "ReadWriteLease \<Rightarrow> int64 \<Rightarrow> int \<Rightarrow> 'w \<Rightarrow> (int64 \<times> error option) \<times> 'w"
  rwl_ReadAt :: "ReadWriteLease \<Rightarrow> bytes \<Rightarrow> int64 \<Rightarrow> 'w \<Rightarrow> (bytes \<times> int \<times> error option) \<times> 'w"
  rl_Read :: "ReadLease \<Rightarrow> bytes \<Rightarrow> 'w \<Rightarrow> (bytes \<times> int \<times> error option) \<times> 'w"
  rl_Seek :: "ReadLease \<Rightarrow> int64 \<Rightarrow> int \<Rightarrow> 'w \<Rightarrow> (int64 \<times> error option) \<times> 'w"
  rl_ReadAt :: "ReadLease \<Rightarrow> bytes \<Rightarrow> int64 \<Rightarrow> 'w \<Rightarrow> (bytes \<times> int \<times> error option) \<times> 'w"
  rl_Upgrade :: "ReadLease \<Rightarrow> 'w \<Rightarrow> (error + ReadWriteLease) \<times> 'w"
  rl_Revoke :: "ReadLease \<Rightarrow> 'w \<Rightarrow> 'w"

text \<open>The log of calls to collaborators, each with what it returned.\<close>

datatype event =
    EvNewFile "error + ReadWriteLease"
  | EvUserF "error + ReadCloser"
  | EvCopy ReadWriteLease ReadCloser int64 "error option"
  | EvClose ReadCloser "error option"
  | EvRwlDowngrade ReadWriteLease "error + ReadLease"
  | EvRwlRead ReadWriteLease "error option"
  | EvRwlSeek ReadWriteLease "error option"
  | EvRwlReadAt ReadWriteLease "error option"
  | EvRlRead ReadLease "error option"
  | EvRlSeek ReadLease "error option"
  | EvRlReadAt ReadLease "error option"
  | EvRlUpgrade ReadLease "error + ReadWriteLease"
  | EvRlRevoke ReadLease
  | EvLogPrintf string error

record 'w world =
  ext :: 'w
  calls :: "event list"

definition record_call :: "'w \<Rightarrow> event \<Rightarrow> 'w world \<Rightarrow> 'w world" where
  "record_call x ev W = \<lparr>ext = x, calls = calls W @ [ev]\<rparr>"

definition call_NewFile :: "'w env \<Rightarrow> 'w world \<Rightarrow> (error + ReadWriteLease) \<times> 'w world" where
  "call_NewFile E W =
     (case leaser_NewFile E (ext W) of (r, x) \<Rightarrow> (r, record_call x (EvNewFile r) W))"

definition call_f :: "'w env \<Rightarrow> 'w world \<Rightarrow> (error + ReadCloser) \<times> 'w world" where
  "call_f E W =
     (case user_f E (ext W) of (r, x) \<Rightarrow> (r, record_call x (EvUserF r) W))"

definition call_Copy ::
  "'w env \<Rightarrow> ReadWriteLease \<Rightarrow> ReadCloser \<Rightarrow> 'w world \<Rightarrow> (int64 \<times> error option) \<times> 'w world" where
  "call_Copy E rwl rc W =
     (case io_Copy E rwl rc (ext W) of
        ((copied, err), x) \<Rightarrow> ((copied, err), record_call x (EvCopy rwl rc copied err) W))"

definition call_Close :: "'w env \<Rightarrow> ReadCloser \<Rightarrow> 'w world \<Rightarrow> error option \<times> 'w world" where
  "call_Close E rc W =
     (case rc_Close E rc (ext W) of (err, x) \<Rightarrow> (err, record_call x (EvClose rc err) W))"

definition call_Downgrade ::
  "'w env \<Rightarrow> ReadWriteLease \<Rightarrow> 'w world \<Rightarrow> (error + ReadLease) \<times> 'w world" where
  "call_Downgrade E rwl W =
     (case rwl_Downgrade E rwl (ext W) of (r, x) \<Rightarrow> (r, record_call x (EvRwlDowngrade rwl r) W))"

definition call_rwl_Read ::
  "'w env \<Rightarrow> ReadWriteLease \<Rightarrow> bytes \<Rightarrow> 'w world \<Rightarrow> (bytes \<times> int \<times> error option) \<times> 'w world" where
  "call_rwl_Read E rwl p W =
     (case rwl_Read E rwl p (ext W) of
        ((p', n, err), x) \<Rightarrow> ((p', n, err), record_call x (EvRwlRead rwl err) W))"

definition call_rwl_Seek ::
  "'w env \<Rightarrow> ReadWriteLease \<Rightarrow> int64 \<Rightarrow> int \<Rightarrow> 'w world \<Rightarrow> (int64 \<times> error option) \<times> 'w world" where
  "call_rwl_Seek E rwl offset whence W =
     (case rwl_Seek E rwl offset whence (ext W) of
        ((off, err), x) \<Rightarrow> ((off, err), record_call x (EvRwlSeek rwl err) W))"

definition call_rwl_ReadAt ::
  "'w env \<Rightarrow> ReadWriteLease \<Rightarrow> bytes \<Rightarrow> int64 \<Rightarrow> 'w world
     \<Rightarrow> (bytes \<times> int \<times> error option) \<times> 'w world" where
  "call_rwl_ReadAt E rwl p off W =
     (case rwl_ReadAt E rwl p off (ext W) of
        ((p', n, err), x) \<Rightarrow> ((p', n, err), record_call x (EvRwlReadAt rwl err) W))"

definition call_rl_Read ::
  "'w env \<Rightarrow> ReadLease \<Rightarrow> bytes \<Rightarrow> 'w world \<Rightarrow> (bytes \<times> int \<times> error option) \<times> 'w world" where
  "call_rl_Read E l p W =
     (case rl_Read E l p (ext W) of
        ((p', n, err), x) \<Rightarrow> ((p', n, err), record_call x (EvRlRead l err) W))"

definition call_rl_Seek ::
  "'w env \<Rightarrow> ReadLease \<Rightarrow> int64 \<Rightarrow> int \<Rightarrow> 'w world \<Rightarrow> (int64 \<times> error option) \<times> 'w world" where
  "call_rl_Seek E l offset whence W =
     (case rl_Seek E l offset whence (ext W) of
        ((off, err), x) \<Rightarrow> ((off, err), record_call x (EvRlSeek l err) W))"

definition call_rl_ReadAt ::
  "'w env \<Rightarrow> ReadLease \<Rightarrow> bytes \<Rightarrow> int64 \<Rightarrow> 'w world
     \<Rightarrow> (bytes \<times> int \<times> error option) \<times> 'w world" where
  "call_rl_ReadAt E l p off W =
     (case rl_ReadAt E l p off (ext W) of
        ((p', n, err), x) \<Rightarrow> ((p', n, err), record_call x (EvRlReadAt l err) W))"

definition call_rl_Upgrade ::
  "'w env \<Rightarrow> ReadLease \<Rightarrow> 'w world \<Rightarrow> (error + ReadWriteLease) \<times> 'w world" where
  "call_rl_Upgrade E l W =
     (case rl_Upgrade E l (ext W) of (r, x) \<Rightarrow> (r, record_call x (EvRlUpgrade l r) W))"

definition call_rl_Revoke :: "'w env \<Rightarrow> ReadLease \<Rightarrow> 'w world \<Rightarrow> 'w world" where
  "call_rl_Revoke E l W = record_call (rl_Revoke E l (ext W)) (EvRlRevoke l) W"

definition log_Printf :: "string \<Rightarrow> error \<Rightarrow> 'w world \<Rightarrow> 'w world" where
  "log_Printf fmt err W = record_call (ext W) (EvLogPrintf fmt err) W"

subsection \<open>The proxy\<close>

text \<open>
  The fields of the struct the methods are declared on. The file declares the struct
  \<open>ReadProxy\<close> (\<open>size\<close>, \<open>leaser\<close>, \<open>f\<close>, \<open>revoked\<close>, \<open>wrapped\<close>, \<open>mu\<close>) and the
  methods name their receiver type \<open>autoRefreshingReadLease\<close>, whose declaration is not
  in the file; the methods use exactly the fields above, so the record follows them. The
  dependencies \<open>leaser\<close> and \<open>f\<close> are the environment: \<open>f\<close> is the content function,
  called as \<open>rl.f()\<close>, without arguments, as its field type \<open>func() (io.ReadCloser,
  error)\<close> says. \<open>Destroyed\<close>, which only panics, is not modelled.
\<close>

record proxy =
  size :: int64
  revoked :: bool
  wrapped :: "ReadLease option"

definition NewReadProxy :: "int64 \<Rightarrow> proxy" where
  "NewReadProxy sz = \<lparr>size = sz, revoked = False, wrapped = None\<rparr>"

subsection \<open>Helpers\<close>

definition destroyReadWriteLease :: "'w env \<Rightarrow> ReadWriteLease \<Rightarrow> 'w world \<Rightarrow> 'w world" where
  "destroyReadWriteLease E rwl W =
     (case call_Downgrade E rwl W of
        (Inl e, W1) \<Rightarrow>
          log_Printf ''Error destroying read/write lease: %v'' (Errorf ''Downgrade: %v'' e) W1
      | (Inr l, W1) \<Rightarrow> call_rl_Revoke E l W1)"

fun isRevokedErr :: "error option \<Rightarrow> bool" where
  "isRevokedErr (Some RevokedError) = True"
| "isRevokedErr _ = False"

definition Size :: "proxy \<Rightarrow> int64" where
  "Size rl = size rl"

text \<open>
  \<open>getContents\<close>, in three pieces, one for each deferred function and one for the
  statements between them. Deferred functions run last-in first-out, so the reader is
  closed before the cleanup of the lease looks at \<open>err\<close>.
\<close>

definition getContents_copy ::
  "'w env \<Rightarrow> proxy \<Rightarrow> ReadWriteLease \<Rightarrow> ReadCloser \<Rightarrow> 'w world \<Rightarrow> error option \<times> 'w world" where
  "getContents_copy E rl rwl rc W =
     (case call_Copy E rwl rc W of
        ((copied, Some e), W1) \<Rightarrow> (Some (Errorf ''Copy: %v'' e), W1)
      | ((copied, None), W1) \<Rightarrow>
          (if copied \<noteq> Size rl then (Some (ErrorfCopied copied (Size rl)), W1)
           else (None, W1)))"

definition getContents_deferred_close ::
  "'w env \<Rightarrow> ReadCloser \<Rightarrow> error option \<times> 'w world \<Rightarrow> error option \<times> 'w world" where
  "getContents_deferred_close E rc r =
     (case r of (err, W) \<Rightarrow>
        (case call_Close E rc W of
           (closeErr, W1) \<Rightarrow>
             (case closeErr of
                Some ce \<Rightarrow> (if err = None then (Some (Errorf ''Close: %v'' ce), W1) else (err, W1))
              | None \<Rightarrow> (err, W1))))"

definition getContents_deferred_destroy ::
  "'w env \<Rightarrow> ReadWriteLease \<Rightarrow> error option \<times> 'w world \<Rightarrow> error option \<times> 'w world" where
  "getContents_deferred_destroy E rwl r =
     (case r of (err, W) \<Rightarrow>
        (if err \<noteq> None then (err, destroyReadWriteLease E rwl W) else (err, W)))"

definition getContents :: "'w env \<Rightarrow> proxy \<Rightarrow> 'w world \<Rightarrow> (error + ReadWriteLease) \<times> 'w world" where
  "getContents E rl W =
     (case call_NewFile E W of
        (Inl e, W1) \<Rightarrow> (Inl (Errorf ''NewFile: %v'' e), W1)
      | (Inr rwl, W1) \<Rightarrow>
          (case getContents_deferred_destroy E rwl
                  (case call_f E W1 of
                     (Inl e, W2) \<Rightarrow> (Some (Errorf ''User function: %v'' e), W2)
                   | (Inr rc, W2) \<Rightarrow>
                       getContents_deferred_close E rc (getContents_copy E rl rwl rc W2)) of
             (Some e, W3) \<Rightarrow> (Inl e, W3)
           | (None, W3) \<Rightarrow> (Inr rwl, W3)))"

definition saveContents :: "'w env \<Rightarrow> ReadWriteLease \<Rightarrow> proxy \<Rightarrow> 'w world \<Rightarrow> proxy \<times> 'w world" where
  "saveContents E rwl rl W =
     (case call_Downgrade E rwl W of
        (Inl e, W1) \<Rightarrow>
          (rl, log_Printf ''Failed to downgrade write lease (%q); abandoning.'' e W1)
      | (Inr downgraded, W1) \<Rightarrow> (rl\<lparr>wrapped := Some downgraded\<rparr>, W1))"

subsection \<open>Public interface\<close>

text \<open>
  Each method returns its Go results, the proxy afterwards and the world afterwards.
  The named results start at their zero values; on the path where the wrapped lease
  reports \<open>RevokedError\<close> the count (or offset) and the buffer it left behind stay in
  the named results and are what an error return of that path carries.
\<close>

definition Read ::
  "'w env \<Rightarrow> Context \<Rightarrow> bytes \<Rightarrow> proxy \<Rightarrow> 'w world
     \<Rightarrow> (bytes \<times> int \<times> error option) \<times> proxy \<times> 'w world" where
  "Read E ctx p rl W =
     (if revoked rl then ((p, 0, Some RevokedError), rl, W)
      else
        (case (case wrapped rl of
                 None \<Rightarrow> Inr ((p, 0), W)
               | Some l \<Rightarrow>
                   (case call_rl_Read E l p W of
                      ((p1, n, err), W1) \<Rightarrow>
                        if \<not> isRevokedErr err then Inl ((p1, n, err), W1)
                        else Inr ((p1, n), W1))) of
           Inl (res, W1) \<Rightarrow> (res, rl, W1)
         | Inr ((p1, n), W1) \<Rightarrow>
             (case getContents E rl W1 of
                (Inl e, W2) \<Rightarrow> ((p1, n, Some (Errorf ''getContents: %v'' e)), rl, W2)
              | (Inr rwl, W2) \<Rightarrow>
                  (case call_rwl_Read E rwl p1 W2 of
                     (res, W3) \<Rightarrow>
                       (case saveContents E rwl rl W3 of
                          (rl', W4) \<Rightarrow> (res, rl', W4))))))"

definition Seek ::
  "'w env \<Rightarrow> Context \<Rightarrow> int64 \<Rightarrow> int \<Rightarrow> proxy \<Rightarrow> 'w world
     \<Rightarrow> (int64 \<times> error option) \<times> proxy \<times> 'w world" where
  "Seek E ctx offset whence rl W =
     (if revoked rl then ((0, Some RevokedError), rl, W)
      else
        (case (case wrapped rl of
                 None \<Rightarrow> Inr (0, W)
               | Some l \<Rightarrow>
                   (case call_rl_Seek E l offset whence W of
                      ((off, err), W1) \<Rightarrow>
                        if \<not> isRevokedErr err then Inl ((off, err), W1)
                        else Inr (off, W1))) of
           Inl (res, W1) \<Rightarrow> (res, rl, W1)
         | Inr (off, W1) \<Rightarrow>
             (case getContents E rl W1 of
                (Inl e, W2) \<Rightarrow> ((off, Some (Errorf ''getContents: %v'' e)), rl, W2)
              | (Inr rwl, W2) \<Rightarrow>
                  (case call_rwl_Seek E rwl offset whence W2 of
                     (res, W3) \<Rightarrow>
                       (case saveContents E rwl rl W3 of
                          (rl', W4) \<Rightarrow> (res, rl', W4))))))"

definition ReadAt ::
  "'w env \<Rightarrow> Context \<Rightarrow> bytes \<Rightarrow> int64 \<Rightarrow> proxy \<Rightarrow> 'w world
     \<Rightarrow> (bytes \<times> int \<times> error option) \<times> proxy \<times> 'w world" where
  "ReadAt E ctx p off rl W =
     (if revoked rl then ((p, 0, Some RevokedError), rl, W)
      else
        (case (case wrapped rl of
                 None \<Rightarrow> Inr ((p, 0), W)
               | Some l \<Rightarrow>
                   (case call_rl_ReadAt E l p off W of
                      ((p1, n, err), W1) \<Rightarrow>
                        if \<not> isRevokedErr err then Inl ((p1, n, err), W1)
                        else Inr ((p1, n), W1))) of
           Inl (res, W1) \<Rightarrow> (res, rl, W1)
         | Inr ((p1, n), W1) \<Rightarrow>
             (case getContents E rl W1 of
                (Inl e, W2) \<Rightarrow> ((p1, n, Some (Errorf ''getContents: %v'' e)), rl, W2)
              | (Inr rwl, W2) \<Rightarrow>
                  (case call_rwl_ReadAt E rwl p1 off W2 of
                     (res, W3) \<Rightarrow>
                       (case saveContents E rwl rl W3 of
                          (rl', W4) \<Rightarrow> (res, rl', W4))))))"

text \<open>
  \<open>Upgrade\<close>: the deferred function sets \<open>revoked\<close> when the method returns with a
  nil error, whatever path it returns on.
\<close>

definition Upgrade_deferred ::
  "(error + ReadWriteLease) \<times> proxy \<times> 'w world \<Rightarrow> (error + ReadWriteLease) \<times> proxy \<times> 'w world" where
  "Upgrade_deferred r =
     (case r of
        (Inl e, rl, W) \<Rightarrow> (Inl e, rl, W)
      | (Inr rwl, rl, W) \<Rightarrow> (Inr rwl, rl\<lparr>revoked := True\<rparr>, W))"

definition Upgrade ::
  "'w env \<Rightarrow> proxy \<Rightarrow> 'w world \<Rightarrow> (error + ReadWriteLease) \<times> proxy \<times> 'w world" where
  "Upgrade E rl W =
     (if revoked rl then (Inl RevokedError, rl, W)
      else Upgrade_deferred
        (case (case wrapped rl of
                 None \<Rightarrow> Inr W
               | Some l \<Rightarrow>
                   (case call_rl_Upgrade E l W of
                      (Inr rwl, W1) \<Rightarrow> Inl (Inr rwl, W1)
                    | (Inl e, W1) \<Rightarrow>
                        if \<not> isRevokedErr (Some e) then Inl (Inl e, W1) else Inr W1)) of
           Inl (res, W1) \<Rightarrow> (res, rl, W1)
         | Inr W1 \<Rightarrow>
             (case getContents E rl W1 of
                (Inl e, W2) \<Rightarrow> (Inl (Errorf ''getContents: %v'' e), rl, W2)
              | (Inr rwl, W2) \<Rightarrow> (Inr rwl, rl, W2))))"

definition Destroy :: "'w env \<Rightarrow> proxy \<Rightarrow> 'w world \<Rightarrow> proxy \<times> 'w world" where
  "Destroy E rl W =
     (let rl' = rl\<lparr>revoked := True\<rparr> in
      case wrapped rl' of
        None \<Rightarrow> (rl', W)
      | Some l \<Rightarrow> (rl', call_rl_Revoke E l W))"

subsection \<open>Callers\<close>

text \<open>
  A caller invokes one method after another. \<open>step\<close> dispatches one invocation and
  \<open>run\<close> a sequence of them, threading the proxy and the world.
\<close>

datatype call =
    CallRead Context bytes
  | CallSeek Context int64 int
  | CallReadAt Context bytes int64
  | CallSize
  | CallUpgrade
  | CallDestroy

datatype ret =
    RetRead bytes int "error option"
  | RetSeek int64 "error option"
  | RetReadAt bytes int "error option"
  | RetSize int64
  | RetUpgrade "error + ReadWriteLease"
  | RetDestroy

definition step :: "'w env \<Rightarrow> call \<Rightarrow> proxy \<Rightarrow> 'w world \<Rightarrow> ret \<times> proxy \<times> 'w world" where
  "step E c rl W =
     (case c of
        CallRead ctx p \<Rightarrow>
          (case Read E ctx p rl W of ((p', n, err), rl', W') \<Rightarrow> (RetRead p' n err, rl', W'))
      | CallSeek ctx offset whence \<Rightarrow>
          (case Seek E ctx offset whence rl W of ((off, err), rl', W') \<Rightarrow> (RetSeek off err, rl', W'))
      | CallReadAt ctx p off \<Rightarrow>
          (case ReadAt E ctx p off rl W of
             ((p', n, err), rl', W') \<Rightarrow> (RetReadAt p' n err, rl', W'))
      | CallSize \<Rightarrow> (RetSize (Size rl), rl, W)
      | CallUpgrade \<Rightarrow> (case Upgrade E rl W of (r, rl', W') \<Rightarrow> (RetUpgrade r, rl', W'))
      | CallDestroy \<Rightarrow> (case Destroy E rl W of (rl', W') \<Rightarrow> (RetDestroy, rl', W')))"

fun run :: "'w env \<Rightarrow> call list \<Rightarrow> proxy \<Rightarrow> 'w world \<Rightarrow> proxy \<times> 'w world" where
  "run E [] rl W = (rl, W)"
| "run E (c # cs) rl W = (case step E c rl W of (r, rl', W') \<Rightarrow> run E cs rl' W')"

fun ret_err :: "ret \<Rightarrow> error option" where
  "ret_err (RetRead p n err) = err"
| "ret_err (RetSeek off err) = err"
| "ret_err (RetReadAt p n err) = err"
| "ret_err (RetSize sz) = None"
| "ret_err (RetUpgrade (Inl e)) = Some e"
| "ret_err (RetUpgrade (Inr rwl)) = None"
| "ret_err RetDestroy = None"

fun is_accessor :: "call \<Rightarrow> bool" where
  "is_accessor (CallRead ctx p) = True"
| "is_accessor (CallSeek ctx offset whence) = True"
| "is_accessor (CallReadAt ctx p off) = True"
| "is_accessor _ = False"

text \<open>The calls an operation added to the log.\<close>

definition new_calls :: "'w world \<Rightarrow> 'w world \<Rightarrow> event list" where
  "new_calls W W' = drop (length (calls W)) (calls W')"

fun is_NewFile :: "event \<Rightarrow> bool" where
  "is_NewFile (EvNewFile r) = True"
| "is_NewFile _ = False"

fun is_UserF :: "event \<Rightarrow> bool" where
  "is_UserF (EvUserF r) = True"
| "is_UserF _ = False"

fun is_Close :: "event \<Rightarrow> bool" where
  "is_Close (EvClose rc err) = True"
| "is_Close _ = False"

text \<open>
  \<open>held_call\<close> is the accessor's operation made on a read lease, \<open>fresh_call\<close> the same
  operation made on a read/write lease. The buffer handed to the second is the one the
  first left behind, carried in the first one's result.
\<close>

definition held_call :: "'w env \<Rightarrow> call \<Rightarrow> ReadLease \<Rightarrow> 'w world \<Rightarrow> ret \<times> 'w world" where
  "held_call E c l W =
     (case c of
        CallRead ctx p \<Rightarrow>
          (case call_rl_Read E l p W of ((p', n, err), W') \<Rightarrow> (RetRead p' n err, W'))
      | CallSeek ctx offset whence \<Rightarrow>
          (case call_rl_Seek E l offset whence W of ((off, err), W') \<Rightarrow> (RetSeek off err, W'))
      | CallReadAt ctx p off \<Rightarrow>
          (case call_rl_ReadAt E l p off W of ((p', n, err), W') \<Rightarrow> (RetReadAt p' n err, W'))
      | _ \<Rightarrow> (RetDestroy, W))"

fun ret_buffer :: "ret \<Rightarrow> bytes" where
  "ret_buffer (RetRead p n err) = p"
| "ret_buffer (RetReadAt p n err) = p"
| "ret_buffer _ = []"

definition fresh_call ::
  "'w env \<Rightarrow> call \<Rightarrow> bytes \<Rightarrow> ReadWriteLease \<Rightarrow> 'w world \<Rightarrow> ret \<times> 'w world" where
  "fresh_call E c p1 rwl W =
     (case c of
        CallRead ctx p \<Rightarrow>
          (case call_rwl_Read E rwl p1 W of ((p', n, err), W') \<Rightarrow> (RetRead p' n err, W'))
      | CallSeek ctx offset whence \<Rightarrow>
          (case call_rwl_Seek E rwl offset whence W of ((off, err), W') \<Rightarrow> (RetSeek off err, W'))
      | CallReadAt ctx p off \<Rightarrow>
          (case call_rwl_ReadAt E rwl p1 off W of ((p', n, err), W') \<Rightarrow> (RetReadAt p' n err, W'))
      | _ \<Rightarrow> (RetDestroy, W))"

text \<open>
  The two shapes of the calls \<open>destroyReadWriteLease\<close> makes on a lease: downgrade it
  and revoke the read lease obtained, or fail to downgrade it and log that.
\<close>

fun is_destroy_of :: "ReadWriteLease \<Rightarrow> event list \<Rightarrow> bool" where
  "is_destroy_of rwl [EvRwlDowngrade r (Inr l), EvRlRevoke l'] = (r = rwl \<and> l' = l)"
| "is_destroy_of rwl [EvRwlDowngrade r (Inl e), EvLogPrintf fmt e'] =
     (r = rwl \<and> e' = Errorf ''Downgrade: %v'' e)"
| "is_destroy_of rwl evs = False"

subsection \<open>A scripted environment\<close>

text \<open>
  An environment without state whose collaborators always answer the same: the leaser
  with \<open>newfile\<close>, the user function with \<open>uf\<close>, the copy with \<open>cp\<close>, closing with
  \<open>cl\<close>, downgrading with \<open>dg\<close>, upgrading with \<open>ug\<close>. Read leases answer every
  read or seek with the error \<open>rlerr\<close> and no data; read/write leases answer without
  error.
\<close>

definition scripted_env ::
  "(error + ReadWriteLease) \<Rightarrow> (error + ReadCloser) \<Rightarrow> (int64 \<times> error option) \<Rightarrow> error option
     \<Rightarrow> (error + ReadLease) \<Rightarrow> error option \<Rightarrow> (error + ReadWriteLease) \<Rightarrow> unit env" where
  "scripted_env newfile uf cp cl dg rlerr ug =
     \<lparr>leaser_NewFile = (\<lambda>x. (newfile, x)),
      user_f = (\<lambda>x. (uf, x)),
      io_Copy = (\<lambda>rwl rc x. (cp, x)),
      rc_Close = (\<lambda>rc x. (cl, x)),
      rwl_Downgrade = (\<lambda>rwl x. (dg, x)),
      rwl_Read = (\<lambda>rwl p x. ((p, int (length p), None), x)),
      rwl_Seek = (\<lambda>rwl offset whence x. ((offset, None), x)),
      rwl_ReadAt = (\<lambda>rwl p off x. ((p, int (length p), None), x)),
      rl_Read = (\<lambda>l p x. ((p, 0, rlerr), x)),
      rl_Seek = (\<lambda>l offset whence x. ((0, rlerr), x)),
      rl_ReadAt = (\<lambda>l p off x. ((p, 0, rlerr), x)),
      rl_Upgrade = (\<lambda>l x. (ug, x)),
      rl_Revoke = (\<lambda>l x. x)\<rparr>"

definition W0 :: "unit world" where
  "W0 = \<lparr>ext = (), calls = []\<rparr>"

subsection \<open>The recovery protocol of the accessors, piece by piece\<close>

text \<open>
  The three accessors are one protocol around three different lease operations. To state
  a property of all three at once the protocol is cut where the source is: \<open>zero_ret\<close>
  is the named results before anything is assigned to them, \<open>set_err\<close> assigns to
  \<open>err\<close> alone, \<open>recovery_entry\<close> is the part up to the call of \<open>getContents\<close> (the
  results so far and the world there, or \<open>None\<close> when the method returns before it),
  and \<open>derive_and_serve\<close> is the rest. Lemma \<open>step_recovery\<close> below shows that the
  methods translated above are exactly these pieces put together.
\<close>

fun zero_ret :: "call \<Rightarrow> ret" where
  "zero_ret (CallRead ctx p) = RetRead p 0 None"
| "zero_ret (CallSeek ctx offset whence) = RetSeek 0 None"
| "zero_ret (CallReadAt ctx p off) = RetReadAt p 0 None"
| "zero_ret c = RetDestroy"

fun set_err :: "ret \<Rightarrow> error \<Rightarrow> ret" where
  "set_err (RetRead p n err) e = RetRead p n (Some e)"
| "set_err (RetSeek off err) e = RetSeek off (Some e)"
| "set_err (RetReadAt p n err) e = RetReadAt p n (Some e)"
| "set_err r e = r"

definition recovery_entry :: "'w env \<Rightarrow> call \<Rightarrow> proxy \<Rightarrow> 'w world \<Rightarrow> (ret \<times> 'w world) option" where
  "recovery_entry E c rl W =
     (if revoked rl then None
      else
        (case wrapped rl of
           None \<Rightarrow> Some (zero_ret c, W)
         | Some l \<Rightarrow>
             (case held_call E c l W of
                (r0, W1) \<Rightarrow> if isRevokedErr (ret_err r0) then Some (r0, W1) else None)))"

definition derive_and_serve ::
  "'w env \<Rightarrow> call \<Rightarrow> ret \<Rightarrow> proxy \<Rightarrow> 'w world \<Rightarrow> ret \<times> proxy \<times> 'w world" where
  "derive_and_serve E c r0 rl W1 =
     (case getContents E rl W1 of
        (Inl e, W2) \<Rightarrow> (set_err r0 (Errorf ''getContents: %v'' e), rl, W2)
      | (Inr rwl, W2) \<Rightarrow>
          (case fresh_call E c (ret_buffer r0) rwl W2 of
             (res, W3) \<Rightarrow>
               (case saveContents E rwl rl W3 of (rl', W4) \<Rightarrow> (res, rl', W4))))"

text \<open>
  The propagation policy as the specification words it, "the first error on any given
  call path wins", for the part of \<open>getContents\<close> after the reader was opened: the
  copy's error, else the size mismatch, else the error of closing. It is compared with
  the translation of the source in lemma \<open>getContents_opened\<close>.
\<close>

definition first_error :: "int64 \<Rightarrow> int64 \<Rightarrow> error option \<Rightarrow> error option \<Rightarrow> error option" where
  "first_error sz copied copyErr closeErr =
     (case copyErr of
        Some e \<Rightarrow> Some (Errorf ''Copy: %v'' e)
      | None \<Rightarrow>
          if copied \<noteq> sz then Some (ErrorfCopied copied sz)
          else (case closeErr of Some ce \<Rightarrow> Some (Errorf ''Close: %v'' ce) | None \<Rightarrow> None))"

text \<open>The errors \<open>getContents\<close> builds after the leaser has handed out a lease.\<close>

fun primary_error :: "error \<Rightarrow> bool" where
  "primary_error (Errorf fmt e) =
     (fmt = ''User function: %v'' \<or> fmt = ''Copy: %v'' \<or> fmt = ''Close: %v'')"
| "primary_error (ErrorfCopied copied sz) = True"
| "primary_error e = False"

section \<open>Properties\<close>

subsection \<open>Auxiliary facts\<close>

lemma step_recovery:
  "is_accessor c \<Longrightarrow> step E c rl W =
     (if revoked rl then (set_err (zero_ret c) RevokedError, rl, W)
      else (case recovery_entry E c rl W of
              Some (r0, W1) \<Rightarrow> derive_and_serve E c r0 rl W1
            | None \<Rightarrow> (case held_call E c (the (wrapped rl)) W of (r0, W1) \<Rightarrow> (r0, rl, W1))))"
  by (cases c)
     (auto simp: step_def recovery_entry_def derive_and_serve_def held_call_def fresh_call_def
        Read_def Seek_def ReadAt_def split: option.splits prod.splits sum.splits)

lemma record_call_calls [simp]: "calls (record_call x ev W) = calls W @ [ev]"
  by (simp add: record_call_def)

lemma record_call_ext [simp]: "ext (record_call x ev W) = x"
  by (simp add: record_call_def)

lemma new_calls_append [simp]: "calls W' = calls W @ evs \<Longrightarrow> new_calls W W' = evs"
  by (simp add: new_calls_def)

lemma destroy_calls:
  "\<exists>evs. calls (destroyReadWriteLease E rwl W) = calls W @ evs \<and> is_destroy_of rwl evs"
  by (auto simp: destroyReadWriteLease_def call_Downgrade_def call_rl_Revoke_def log_Printf_def
      split: prod.splits sum.splits)

lemma is_destroy_of_facts:
  "is_destroy_of rwl evs \<Longrightarrow>
     filter is_NewFile evs = [] \<and> filter is_UserF evs = [] \<and> filter is_Close evs = [] \<and>
     length evs = 2"
  by (induction rwl evs rule: is_destroy_of.induct) auto

lemma getContents_NewFile_fails:
  "leaser_NewFile E (ext W) = (Inl e, x1) \<Longrightarrow>
     getContents E rl W = (Inl (Errorf ''NewFile: %v'' e), record_call x1 (EvNewFile (Inl e)) W)"
  by (simp add: getContents_def call_NewFile_def)

lemma getContents_f_fails:
  "leaser_NewFile E (ext W) = (Inr rwl, x1) \<Longrightarrow> user_f E x1 = (Inl e, x2) \<Longrightarrow>
     getContents E rl W =
       (Inl (Errorf ''User function: %v'' e),
        destroyReadWriteLease E rwl
          \<lparr>ext = x2, calls = calls W @ [EvNewFile (Inr rwl), EvUserF (Inl e)]\<rparr>)"
  by (simp add: getContents_def call_NewFile_def call_f_def getContents_deferred_destroy_def
      record_call_def)

lemma getContents_opened:
  "leaser_NewFile E (ext W) = (Inr rwl, x1) \<Longrightarrow> user_f E x1 = (Inr rc, x2) \<Longrightarrow>
   io_Copy E rwl rc x2 = ((copied, copyErr), x3) \<Longrightarrow> rc_Close E rc x3 = (closeErr, x4) \<Longrightarrow>
   W4 = \<lparr>ext = x4, calls = calls W @ [EvNewFile (Inr rwl), EvUserF (Inr rc),
            EvCopy rwl rc copied copyErr, EvClose rc closeErr]\<rparr> \<Longrightarrow>
     getContents E rl W =
       (case first_error (size rl) copied copyErr closeErr of
          None \<Rightarrow> (Inr rwl, W4)
        | Some e \<Rightarrow> (Inl e, destroyReadWriteLease E rwl W4))"
  by (simp add: getContents_def call_NewFile_def call_f_def getContents_deferred_destroy_def
      getContents_deferred_close_def getContents_copy_def call_Copy_def call_Close_def
      record_call_def first_error_def Size_def split: option.splits)

lemma saveContents_new:
  "saveContents E rwl rl W = (rl', W') \<Longrightarrow>
     \<exists>evs. calls W' = calls W @ evs \<and> filter is_NewFile evs = [] \<and> filter is_UserF evs = []"
  by (auto simp: saveContents_def call_Downgrade_def log_Printf_def split: prod.splits sum.splits)

lemma fresh_call_new:
  "is_accessor c \<Longrightarrow> fresh_call E c p1 rwl W = (res, W') \<Longrightarrow>
     \<exists>ev. calls W' = calls W @ [ev] \<and> \<not> is_NewFile ev \<and> \<not> is_UserF ev"
  by (cases c)
     (auto simp: fresh_call_def call_rwl_Read_def call_rwl_Seek_def call_rwl_ReadAt_def
        split: prod.splits)

lemma held_call_new:
  "is_accessor c \<Longrightarrow> held_call E c l W = (res, W') \<Longrightarrow>
     \<exists>ev. calls W' = calls W @ [ev] \<and> \<not> is_NewFile ev \<and> \<not> is_UserF ev"
  by (cases c)
     (auto simp: held_call_def call_rl_Read_def call_rl_Seek_def call_rl_ReadAt_def
        split: prod.splits)

lemmas call_defs = call_NewFile_def call_f_def call_Copy_def call_Close_def call_Downgrade_def
  call_rwl_Read_def call_rwl_Seek_def call_rwl_ReadAt_def call_rl_Read_def call_rl_Seek_def
  call_rl_ReadAt_def call_rl_Upgrade_def call_rl_Revoke_def log_Printf_def record_call_def

lemmas code_defs = getContents_def getContents_copy_def getContents_deferred_close_def
  getContents_deferred_destroy_def destroyReadWriteLease_def saveContents_def Size_def
  Read_def Seek_def ReadAt_def Upgrade_def Upgrade_deferred_def Destroy_def step_def
  held_call_def fresh_call_def scripted_env_def W0_def new_calls_def NewReadProxy_def

lemma step_keeps_revoked: "revoked rl \<Longrightarrow> step E c rl W = (r, rl', W') \<Longrightarrow>
    revoked rl' \<and> wrapped rl' = wrapped rl"
  by (cases c)
     (auto simp: step_def Read_def Seek_def ReadAt_def Upgrade_def Destroy_def Let_def
        split: option.splits)

lemma run_keeps_revoked:
  "revoked rl \<Longrightarrow> revoked (fst (run E cs rl W)) \<and> wrapped (fst (run E cs rl W)) = wrapped rl"
proof (induction cs arbitrary: rl W)
  case Nil
  then show ?case by simp
next
  case (Cons c cs)
  obtain r rl' W' where s: "step E c rl W = (r, rl', W')" by (cases "step E c rl W")
  with Cons.prems have "revoked rl'" "wrapped rl' = wrapped rl"
    using step_keeps_revoked by blast+
  with Cons.IH [of rl' W'] s show ?case by simp
qed

lemma first_error_primary: "first_error sz copied copyErr closeErr = Some e \<Longrightarrow> primary_error e"
  by (auto simp: first_error_def split: option.splits if_splits)

lemma destroy_tail:
  "calls W' = calls W @ pre \<Longrightarrow>
     is_destroy_of rwl
       (drop (length (new_calls W (destroyReadWriteLease E rwl W')) - 2)
          (new_calls W (destroyReadWriteLease E rwl W')))"
proof -
  assume p: "calls W' = calls W @ pre"
  obtain evs where evs: "calls (destroyReadWriteLease E rwl W') = calls W' @ evs"
      "is_destroy_of rwl evs"
    using destroy_calls by blast
  from evs(2) have "length evs = 2" using is_destroy_of_facts by blast
  with p evs show ?thesis by (simp add: new_calls_def)
qed

lemma getContents_one_run:
  assumes g: "getContents E rl W = (r, W')"
  shows "\<exists>evs. calls W' = calls W @ evs \<and> length (filter is_NewFile evs) = 1 \<and>
       length (filter is_UserF evs) =
         (case fst (leaser_NewFile E (ext W)) of Inl e \<Rightarrow> 0 | Inr rwl \<Rightarrow> 1)"
proof -
  obtain nf x1 where nf: "leaser_NewFile E (ext W) = (nf, x1)" by (cases "leaser_NewFile E (ext W)")
  show ?thesis
  proof (cases nf)
    case (Inl e)
    with nf g getContents_NewFile_fails [of E W e x1 rl] show ?thesis by auto
  next
    case (Inr rwl)
    obtain uf x2 where uf: "user_f E x1 = (uf, x2)" by (cases "user_f E x1")
    show ?thesis
    proof (cases uf)
      case (Inl e)
      let ?W2 = "\<lparr>ext = x2, calls = calls W @ [EvNewFile (Inr rwl), EvUserF (Inl e)]\<rparr>"
      from nf Inr uf Inl g have W': "W' = destroyReadWriteLease E rwl ?W2"
        using getContents_f_fails [of E W rwl x1 e x2 rl] by simp
      obtain evs where "calls W' = calls ?W2 @ evs" "is_destroy_of rwl evs"
        using destroy_calls [of E rwl ?W2] W' by auto
      then show ?thesis using is_destroy_of_facts [of rwl evs] nf Inr by auto
    next
      case rc: (Inr rc)
      obtain copied copyErr x3 where cp: "io_Copy E rwl rc x2 = ((copied, copyErr), x3)"
        by (cases "io_Copy E rwl rc x2") auto
      obtain closeErr x4 where cl: "rc_Close E rc x3 = (closeErr, x4)"
        by (cases "rc_Close E rc x3")
      let ?W4 = "\<lparr>ext = x4, calls = calls W @ [EvNewFile (Inr rwl), EvUserF (Inr rc),
            EvCopy rwl rc copied copyErr, EvClose rc closeErr]\<rparr>"
      have eq: "getContents E rl W =
         (case first_error (size rl) copied copyErr closeErr of
            None \<Rightarrow> (Inr rwl, ?W4) | Some e \<Rightarrow> (Inl e, destroyReadWriteLease E rwl ?W4))"
        using getContents_opened [OF _ _ cp cl refl, of W x1 rl] nf Inr uf rc by simp
      show ?thesis
      proof (cases "first_error (size rl) copied copyErr closeErr")
        case None
        with eq g have "W' = ?W4" by simp
        then show ?thesis using nf Inr by simp
      next
        case (Some e)
        with eq g have W': "W' = destroyReadWriteLease E rwl ?W4" by simp
        obtain evs where "calls W' = calls ?W4 @ evs" "is_destroy_of rwl evs"
          using destroy_calls [of E rwl ?W4] W' by auto
        then show ?thesis using is_destroy_of_facts [of rwl evs] nf Inr by auto
      qed
    qed
  qed
qed

lemma after_getContents_new:
  assumes "is_accessor c" and "derive_and_serve E c r0 rl W1 = (r, rl', W')"
    and "getContents E rl W1 = (g, W2)"
  shows "(\<exists>tail. calls W' = calls W2 @ tail \<and> filter is_NewFile tail = [] \<and>
            filter is_UserF tail = []) \<and>
         (case g of
            Inl e \<Rightarrow> r = set_err r0 (Errorf ''getContents: %v'' e) \<and> rl' = rl \<and> W' = W2
          | Inr rwl \<Rightarrow>
              r = fst (fresh_call E c (ret_buffer r0) rwl W2) \<and>
              (rl', W') = saveContents E rwl rl (snd (fresh_call E c (ret_buffer r0) rwl W2)))"
proof (cases g)
  case (Inl e)
  with assms show ?thesis by (simp add: derive_and_serve_def)
next
  case (Inr rwl)
  obtain res W3 where f: "fresh_call E c (ret_buffer r0) rwl W2 = (res, W3)"
    by (cases "fresh_call E c (ret_buffer r0) rwl W2")
  obtain rl2 W4 where s: "saveContents E rwl rl W3 = (rl2, W4)"
    by (cases "saveContents E rwl rl W3")
  from assms Inr f s have eq: "r = res" "rl' = rl2" "W' = W4"
    by (simp_all add: derive_and_serve_def)
  from fresh_call_new [OF assms(1) f] obtain ev where
    ev: "calls W3 = calls W2 @ [ev]" "\<not> is_NewFile ev" "\<not> is_UserF ev" by blast
  from saveContents_new [OF s] obtain evs' where
    evs': "calls W4 = calls W3 @ evs'" "filter is_NewFile evs' = []" "filter is_UserF evs' = []"
    by blast
  from ev evs' eq have "calls W' = calls W2 @ (ev # evs') \<and> filter is_NewFile (ev # evs') = [] \<and>
      filter is_UserF (ev # evs') = []" by simp
  then have "\<exists>tail. calls W' = calls W2 @ tail \<and> filter is_NewFile tail = [] \<and>
            filter is_UserF tail = []" by blast
  with Inr f s eq show ?thesis by simp
qed

lemma set_err_ret_err:
  "is_accessor c \<Longrightarrow> held_call E c l W = (r0, W1) \<Longrightarrow> ret_err (set_err r0 e) = Some e"
  by (cases c) (auto simp: held_call_def split: prod.splits)

subsection \<open>Claim C1: one derivation for an invalidated lease, none on the fast path\<close>

text \<open>
  C1. An accessor (\<open>Read\<close>, \<open>Seek\<close>, \<open>ReadAt\<close>) is called on a proxy that is not revoked
  and holds a lease; \<open>r0\<close> is what the held lease answers and \<open>W1\<close> the world after that
  answer. If the answer is a \<open>RevokedError\<close>, the accessor runs \<open>getContents\<close> once, from
  \<open>W1\<close>: the log of calls when the accessor returns is the log \<open>getContents\<close> left,
  followed by calls that are neither \<open>NewFile\<close> nor the content function; that one run of
  \<open>getContents\<close> calls \<open>NewFile\<close> exactly once and the content function once if
  \<open>NewFile\<close> handed out a lease and not at all otherwise; the call of the held lease
  before it is neither. When \<open>getContents\<close> fails the accessor returns its error wrapped
  and stops there; when it succeeds the accessor returns what the read/write lease
  answers and \<open>saveContents\<close> ends the call. So over the whole call \<open>NewFile\<close> is called
  exactly once and the content function at most once. If the answer of the held lease is
  not a \<open>RevokedError\<close>, the calls contain neither, and the accessor returns the lease's
  answer as it is, leaving the proxy as it was.
\<close>

theorem one_derivation_per_invalidation:
  assumes "is_accessor c" and "\<not> revoked rl" and "wrapped rl = Some l"
    and "held_call E c l W = (r0, W1)"
    and "step E c rl W = (r, rl', W')"
  shows "if isRevokedErr (ret_err r0)
         then (case getContents E rl W1 of
                 (g, W2) \<Rightarrow>
                   calls W2 = calls W1 @ new_calls W1 W2 \<and>
                   length (filter is_NewFile (new_calls W1 W2)) = 1 \<and>
                   length (filter is_UserF (new_calls W1 W2)) =
                     (case fst (leaser_NewFile E (ext W1)) of Inl e \<Rightarrow> 0 | Inr rwl \<Rightarrow> 1) \<and>
                   calls W' = calls W2 @ new_calls W2 W' \<and>
                   filter is_NewFile (new_calls W2 W') = [] \<and>
                   filter is_UserF (new_calls W2 W') = [] \<and>
                   (case g of
                      Inl e \<Rightarrow>
                        ret_err r = Some (Errorf ''getContents: %v'' e) \<and> rl' = rl \<and> W' = W2
                    | Inr rwl \<Rightarrow>
                        r = fst (fresh_call E c (ret_buffer r0) rwl W2) \<and>
                        (rl', W') =
                          saveContents E rwl rl (snd (fresh_call E c (ret_buffer r0) rwl W2)))) \<and>
              calls W1 = calls W @ new_calls W W1 \<and>
              filter is_NewFile (new_calls W W1) = [] \<and>
              filter is_UserF (new_calls W W1) = [] \<and>
              length (filter is_NewFile (new_calls W W')) = 1 \<and>
              length (filter is_UserF (new_calls W W')) \<le> 1
         else filter is_NewFile (new_calls W W') = [] \<and>
              filter is_UserF (new_calls W W') = [] \<and> r = r0 \<and> rl' = rl \<and> W' = W1"
proof -
  from held_call_new [OF assms(1,4)] obtain ev where
    ev: "calls W1 = calls W @ [ev]" "\<not> is_NewFile ev" "\<not> is_UserF ev" by blast
  show ?thesis
  proof (cases "isRevokedErr (ret_err r0)")
    case True
    with assms have d: "derive_and_serve E c r0 rl W1 = (r, rl', W')"
      by (simp add: step_recovery recovery_entry_def)
    obtain g W2 where g: "getContents E rl W1 = (g, W2)" by (cases "getContents E rl W1")
    from getContents_one_run [OF g] obtain evs where
      evs: "calls W2 = calls W1 @ evs" "length (filter is_NewFile evs) = 1"
        "length (filter is_UserF evs) =
           (case fst (leaser_NewFile E (ext W1)) of Inl e \<Rightarrow> 0 | Inr rwl \<Rightarrow> 1)"
      by blast
    from after_getContents_new [OF assms(1) d g] obtain tail where
      tail: "calls W' = calls W2 @ tail" "filter is_NewFile tail = []" "filter is_UserF tail = []"
      and res: "case g of
            Inl e \<Rightarrow> r = set_err r0 (Errorf ''getContents: %v'' e) \<and> rl' = rl \<and> W' = W2
          | Inr rwl \<Rightarrow>
              r = fst (fresh_call E c (ret_buffer r0) rwl W2) \<and>
              (rl', W') = saveContents E rwl rl (snd (fresh_call E c (ret_buffer r0) rwl W2))"
      by blast
    have res': "case g of
            Inl e \<Rightarrow> ret_err r = Some (Errorf ''getContents: %v'' e) \<and> rl' = rl \<and> W' = W2
          | Inr rwl \<Rightarrow>
              r = fst (fresh_call E c (ret_buffer r0) rwl W2) \<and>
              (rl', W') = saveContents E rwl rl (snd (fresh_call E c (ret_buffer r0) rwl W2))"
      using res set_err_ret_err [OF assms(1,4)] by (cases g) simp_all
    have le: "length (filter is_UserF evs) \<le> 1"
      using evs(3) by (cases "fst (leaser_NewFile E (ext W1))") simp_all
    have n1: "new_calls W1 W2 = evs" using evs(1) by simp
    have n2: "new_calls W2 W' = tail" using tail(1) by simp
    have n3: "new_calls W W1 = [ev]" using ev(1) by simp
    have n4: "new_calls W W' = ev # evs @ tail" using ev(1) evs(1) tail(1) by simp
    show ?thesis
      unfolding g n1 n2 n3 n4 using True ev evs tail res' le by simp
  next
    case False
    with assms have "r = r0 \<and> rl' = rl \<and> W' = W1"
      by (simp add: step_recovery recovery_entry_def)
    with ev False show ?thesis by simp
  qed
qed

theorem one_derivation_per_invalidation_witness:
  "is_accessor (CallRead 0 [1, 2]) \<and>
   \<not> revoked \<lparr>size = 4, revoked = False, wrapped = Some 1\<rparr> \<and>
   held_call (scripted_env (Inr 7) (Inr 3) (4, None) None (Inr 5) (Some RevokedError) (Inr 9))
       (CallRead 0 [1, 2]) 1 W0 =
     (RetRead [1, 2] 0 (Some RevokedError),
      \<lparr>ext = (), calls = [EvRlRead 1 (Some RevokedError)]\<rparr>) \<and>
   step (scripted_env (Inr 7) (Inr 3) (4, None) None (Inr 5) (Some RevokedError) (Inr 9))
       (CallRead 0 [1, 2]) \<lparr>size = 4, revoked = False, wrapped = Some 1\<rparr> W0 =
     (RetRead [1, 2] 2 None, \<lparr>size = 4, revoked = False, wrapped = Some 5\<rparr>,
      \<lparr>ext = (), calls = [EvRlRead 1 (Some RevokedError), EvNewFile (Inr 7), EvUserF (Inr 3),
         EvCopy 7 3 4 None, EvClose 3 None, EvRwlRead 7 None, EvRwlDowngrade 7 (Inr 5)]\<rparr>) \<and>
   getContents (scripted_env (Inr 7) (Inr 3) (4, None) None (Inr 5) (Some RevokedError) (Inr 9))
       \<lparr>size = 4, revoked = False, wrapped = Some 1\<rparr>
       \<lparr>ext = (), calls = [EvRlRead 1 (Some RevokedError)]\<rparr> =
     (Inr 7, \<lparr>ext = (), calls = [EvRlRead 1 (Some RevokedError), EvNewFile (Inr 7),
         EvUserF (Inr 3), EvCopy 7 3 4 None, EvClose 3 None]\<rparr>) \<and>
   length (filter is_NewFile (new_calls W0
      \<lparr>ext = (), calls = [EvRlRead 1 (Some RevokedError), EvNewFile (Inr 7), EvUserF (Inr 3),
         EvCopy 7 3 4 None, EvClose 3 None, EvRwlRead 7 None, EvRwlDowngrade 7 (Inr 5)]\<rparr>)) = 1 \<and>
   length (filter is_UserF (new_calls W0
      \<lparr>ext = (), calls = [EvRlRead 1 (Some RevokedError), EvNewFile (Inr 7), EvUserF (Inr 3),
         EvCopy 7 3 4 None, EvClose 3 None, EvRwlRead 7 None, EvRwlDowngrade 7 (Inr 5)]\<rparr>)) \<le> 1"
proof -
  have h: "held_call (scripted_env (Inr 7) (Inr 3) (4, None) None (Inr 5) (Some RevokedError) (Inr 9))
       (CallRead 0 [1, 2]) 1 W0 =
     (RetRead [1, 2] 0 (Some RevokedError),
      \<lparr>ext = (), calls = [EvRlRead 1 (Some RevokedError)]\<rparr>)"
    by (simp add: call_defs code_defs)
  have s: "step (scripted_env (Inr 7) (Inr 3) (4, None) None (Inr 5) (Some RevokedError) (Inr 9))
       (CallRead 0 [1, 2]) \<lparr>size = 4, revoked = False, wrapped = Some 1\<rparr> W0 =
     (RetRead [1, 2] 2 None, \<lparr>size = 4, revoked = False, wrapped = Some 5\<rparr>,
      \<lparr>ext = (), calls = [EvRlRead 1 (Some RevokedError), EvNewFile (Inr 7), EvUserF (Inr 3),
         EvCopy 7 3 4 None, EvClose 3 None, EvRwlRead 7 None, EvRwlDowngrade 7 (Inr 5)]\<rparr>)"
    by (simp add: call_defs code_defs)
  have g: "getContents (scripted_env (Inr 7) (Inr 3) (4, None) None (Inr 5) (Some RevokedError) (Inr 9))
       \<lparr>size = 4, revoked = False, wrapped = Some 1\<rparr>
       \<lparr>ext = (), calls = [EvRlRead 1 (Some RevokedError)]\<rparr> =
     (Inr 7, \<lparr>ext = (), calls = [EvRlRead 1 (Some RevokedError), EvNewFile (Inr 7),
         EvUserF (Inr 3), EvCopy 7 3 4 None, EvClose 3 None]\<rparr>)"
    by (simp add: call_defs code_defs)
  have n: "fst (leaser_NewFile (scripted_env (Inr 7) (Inr 3) (4, None) None (Inr 5)
      (Some RevokedError) (Inr 9)) ()) = Inr 7"
    by (simp add: scripted_env_def)
  from one_derivation_per_invalidation [OF _ _ _ h s] h s g show ?thesis by (simp add: n)
qed

subsection \<open>Claim C2: an accessor whose recovery fails\<close>

text \<open>
  C2, as claimed, fails. The claim has the accessor leave the ownership slot empty when
  the held lease answered \<open>RevokedError\<close> and the derivation then failed. No accessor
  assigns to \<open>wrapped\<close> on that path: after the \<open>RevokedError\<close> only \<open>err\<close> is cleared.
  Here lease 1 is held and revoked and the leaser has no space: \<open>Read\<close> returns the
  wrapped error and the slot still holds lease 1.
\<close>

theorem failed_recovery_counterexample:
  "held_call (scripted_env (Inl (ExternalError ''no space'')) (Inr 3) (4, None) None (Inr 5)
       (Some RevokedError) (Inr 9)) (CallRead 0 [1, 2]) 1 W0 =
     (RetRead [1, 2] 0 (Some RevokedError),
      \<lparr>ext = (), calls = [EvRlRead 1 (Some RevokedError)]\<rparr>) \<and>
   getContents (scripted_env (Inl (ExternalError ''no space'')) (Inr 3) (4, None) None (Inr 5)
       (Some RevokedError) (Inr 9)) \<lparr>size = 4, revoked = False, wrapped = Some 1\<rparr>
       \<lparr>ext = (), calls = [EvRlRead 1 (Some RevokedError)]\<rparr> =
     (Inl (Errorf ''NewFile: %v'' (ExternalError ''no space'')),
      \<lparr>ext = (), calls = [EvRlRead 1 (Some RevokedError),
         EvNewFile (Inl (ExternalError ''no space''))]\<rparr>) \<and>
   step (scripted_env (Inl (ExternalError ''no space'')) (Inr 3) (4, None) None (Inr 5)
       (Some RevokedError) (Inr 9)) (CallRead 0 [1, 2])
       \<lparr>size = 4, revoked = False, wrapped = Some 1\<rparr> W0 =
     (RetRead [1, 2] 0
        (Some (Errorf ''getContents: %v'' (Errorf ''NewFile: %v'' (ExternalError ''no space'')))),
      \<lparr>size = 4, revoked = False, wrapped = Some 1\<rparr>,
      \<lparr>ext = (), calls = [EvRlRead 1 (Some RevokedError),
         EvNewFile (Inl (ExternalError ''no space''))]\<rparr>) \<and>
   wrapped (fst (snd (step (scripted_env (Inl (ExternalError ''no space'')) (Inr 3) (4, None)
       None (Inr 5) (Some RevokedError) (Inr 9)) (CallRead 0 [1, 2])
       \<lparr>size = 4, revoked = False, wrapped = Some 1\<rparr> W0))) \<noteq> None"
  by (simp add: call_defs code_defs)

text \<open>
  C2, amended. When the held lease answers \<open>RevokedError\<close> and the derivation fails with
  \<open>e\<close>, the accessor returns the error \<open>getContents: e\<close> and leaves the proxy exactly
  as it was: \<open>revoked\<close> is still false and the slot still holds the revoked lease. The
  world is the one \<open>getContents\<close> left. (A later call is therefore not refused; it asks
  the same lease again.)
\<close>

theorem failed_recovery_leaves_proxy_unchanged:
  assumes "is_accessor c" and "\<not> revoked rl" and "wrapped rl = Some l"
    and "held_call E c l W = (r0, W1)" and "isRevokedErr (ret_err r0)"
    and "getContents E rl W1 = (Inl e, W2)"
  shows "ret_err (fst (step E c rl W)) = Some (Errorf ''getContents: %v'' e) \<and>
         fst (snd (step E c rl W)) = rl \<and>
         wrapped (fst (snd (step E c rl W))) = Some l \<and>
         \<not> revoked (fst (snd (step E c rl W))) \<and>
         snd (snd (step E c rl W)) = W2"
proof -
  from assms have "step E c rl W = (set_err r0 (Errorf ''getContents: %v'' e), rl, W2)"
    by (simp add: step_recovery recovery_entry_def derive_and_serve_def)
  moreover have "ret_err (set_err r0 (Errorf ''getContents: %v'' e)) =
      Some (Errorf ''getContents: %v'' e)"
    using assms(1,4) by (cases c) (auto simp: held_call_def split: prod.splits)
  ultimately show ?thesis using assms(2,3) by simp
qed

theorem failed_recovery_leaves_proxy_unchanged_witness:
  "is_accessor (CallSeek 0 2 0) \<and>
   held_call (scripted_env (Inr 7) (Inr 3) (3, None) None (Inr 5) (Some RevokedError) (Inr 9))
       (CallSeek 0 2 0) 1 W0 =
     (RetSeek 0 (Some RevokedError), \<lparr>ext = (), calls = [EvRlSeek 1 (Some RevokedError)]\<rparr>) \<and>
   isRevokedErr (ret_err (RetSeek 0 (Some RevokedError))) \<and>
   getContents (scripted_env (Inr 7) (Inr 3) (3, None) None (Inr 5) (Some RevokedError) (Inr 9))
       \<lparr>size = 4, revoked = False, wrapped = Some 1\<rparr>
       \<lparr>ext = (), calls = [EvRlSeek 1 (Some RevokedError)]\<rparr> =
     (Inl (ErrorfCopied 3 4),
      \<lparr>ext = (), calls = [EvRlSeek 1 (Some RevokedError), EvNewFile (Inr 7), EvUserF (Inr 3),
         EvCopy 7 3 3 None, EvClose 3 None, EvRwlDowngrade 7 (Inr 5), EvRlRevoke 5]\<rparr>) \<and>
   ret_err (fst (step (scripted_env (Inr 7) (Inr 3) (3, None) None (Inr 5) (Some RevokedError)
       (Inr 9)) (CallSeek 0 2 0) \<lparr>size = 4, revoked = False, wrapped = Some 1\<rparr> W0)) =
     Some (Errorf ''getContents: %v'' (ErrorfCopied 3 4)) \<and>
   fst (snd (step (scripted_env (Inr 7) (Inr 3) (3, None) None (Inr 5) (Some RevokedError)
       (Inr 9)) (CallSeek 0 2 0) \<lparr>size = 4, revoked = False, wrapped = Some 1\<rparr> W0)) =
     \<lparr>size = 4, revoked = False, wrapped = Some 1\<rparr>"
proof -
  let ?E = "scripted_env (Inr 7) (Inr 3) (3, None) None (Inr 5) (Some RevokedError) (Inr 9)"
  have h: "held_call ?E (CallSeek 0 2 0) 1 W0 =
     (RetSeek 0 (Some RevokedError), \<lparr>ext = (), calls = [EvRlSeek 1 (Some RevokedError)]\<rparr>)"
    by (simp add: call_defs code_defs)
  have g: "getContents ?E \<lparr>size = 4, revoked = False, wrapped = Some 1\<rparr>
       \<lparr>ext = (), calls = [EvRlSeek 1 (Some RevokedError)]\<rparr> =
     (Inl (ErrorfCopied 3 4),
      \<lparr>ext = (), calls = [EvRlSeek 1 (Some RevokedError), EvNewFile (Inr 7), EvUserF (Inr 3),
         EvCopy 7 3 3 None, EvClose 3 None, EvRwlDowngrade 7 (Inr 5), EvRlRevoke 5]\<rparr>)"
    by (simp add: call_defs code_defs)
  from failed_recovery_leaves_proxy_unchanged [OF _ _ _ h _ g] h g show ?thesis by simp
qed

subsection \<open>Claim C3: a revoked proxy stays revoked and refuses every operation\<close>

text \<open>
  C3. Once \<open>revoked\<close> is set, it is set after any sequence of operations (nothing resets
  it), and each of \<open>Read\<close>, \<open>Seek\<close>, \<open>ReadAt\<close> and \<open>Upgrade\<close> returns a \<open>RevokedError\<close>
  at once: the proxy and the world, with its log of calls, are unchanged, so neither the
  leaser nor the content function nor any lease was called.
\<close>

theorem revoked_is_terminal:
  assumes "revoked rl" and "c \<noteq> CallDestroy" and "c \<noteq> CallSize"
  shows "revoked (fst (run E cs rl W)) \<and>
         (\<exists>r. step E c rl W = (r, rl, W) \<and> ret_err r = Some RevokedError)"
proof -
  have "\<exists>r. step E c rl W = (r, rl, W) \<and> ret_err r = Some RevokedError"
    using assms by (cases c) (simp_all add: step_def Read_def Seek_def ReadAt_def Upgrade_def)
  with run_keeps_revoked [OF assms(1)] show ?thesis by blast
qed

theorem revoked_is_terminal_witness:
  "revoked \<lparr>size = 4, revoked = True, wrapped = Some 1\<rparr> \<and>
   revoked (fst (run (scripted_env (Inr 7) (Inr 3) (4, None) None (Inr 5) None (Inr 9))
      [CallSeek 0 2 0, CallDestroy, CallUpgrade]
      \<lparr>size = 4, revoked = True, wrapped = Some 1\<rparr> W0)) \<and>
   step (scripted_env (Inr 7) (Inr 3) (4, None) None (Inr 5) None (Inr 9)) (CallRead 0 [1, 2])
      \<lparr>size = 4, revoked = True, wrapped = Some 1\<rparr> W0 =
     (RetRead [1, 2] 0 (Some RevokedError), \<lparr>size = 4, revoked = True, wrapped = Some 1\<rparr>, W0)"
  using revoked_is_terminal [of "\<lparr>size = 4, revoked = True, wrapped = Some 1\<rparr>" "CallRead 0 [1, 2]"
      "scripted_env (Inr 7) (Inr 3) (4, None) None (Inr 5) None (Inr 9)"
      "[CallSeek 0 2 0, CallDestroy, CallUpgrade]" W0]
  by (simp add: step_def Read_def)

subsection \<open>Claim C4: the size check of the derivation\<close>

text \<open>
  C4, as claimed, fails in one direction. The claim has \<open>getContents\<close>, after a copy
  without error, return an error if and only if the count differs from the declared
  size. Here the copy returns 4 bytes for a declared size of 4 and no error, and closing
  the reader fails: \<open>getContents\<close> returns the error of closing (and destroys the lease).
\<close>

theorem size_mismatch_counterexample:
  "io_Copy (scripted_env (Inr 7) (Inr 3) (4, None) (Some (ExternalError ''close'')) (Inr 5) None
       (Inr 9)) 7 3 () = ((4, None), ()) \<and>
   size (NewReadProxy 4) = 4 \<and>
   getContents (scripted_env (Inr 7) (Inr 3) (4, None) (Some (ExternalError ''close'')) (Inr 5)
       None (Inr 9)) (NewReadProxy 4) W0 =
     (Inl (Errorf ''Close: %v'' (ExternalError ''close'')),
      \<lparr>ext = (), calls = [EvNewFile (Inr 7), EvUserF (Inr 3), EvCopy 7 3 4 None,
         EvClose 3 (Some (ExternalError ''close'')), EvRwlDowngrade 7 (Inr 5), EvRlRevoke 5]\<rparr>)"
  by (simp add: call_defs code_defs)

text \<open>
  C4, amended. After a copy without error: if the count differs from the declared size,
  \<open>getContents\<close> returns the mismatch error, whatever closing the reader returns, and the
  calls that follow the close are the destruction of the lease allocated for the attempt;
  if the count equals the declared size, it returns an error exactly when closing the
  reader fails, and that error is the error of closing.
\<close>

theorem size_mismatch_is_an_error:
  assumes "leaser_NewFile E (ext W) = (Inr rwl, x1)" and "user_f E x1 = (Inr rc, x2)"
    and "io_Copy E rwl rc x2 = ((copied, None), x3)" and "rc_Close E rc x3 = (closeErr, x4)"
  shows "if copied \<noteq> size rl
         then fst (getContents E rl W) = Inl (ErrorfCopied copied (size rl)) \<and>
              is_destroy_of rwl (drop 4 (new_calls W (snd (getContents E rl W))))
         else (case closeErr of
                 None \<Rightarrow> fst (getContents E rl W) = Inr rwl
               | Some ce \<Rightarrow> fst (getContents E rl W) = Inl (Errorf ''Close: %v'' ce))"
proof -
  let ?W4 = "\<lparr>ext = x4, calls = calls W @ [EvNewFile (Inr rwl), EvUserF (Inr rc),
            EvCopy rwl rc copied None, EvClose rc closeErr]\<rparr>"
  have eq: "getContents E rl W =
     (case first_error (size rl) copied None closeErr of
        None \<Rightarrow> (Inr rwl, ?W4) | Some e \<Rightarrow> (Inl e, destroyReadWriteLease E rwl ?W4))"
    using getContents_opened [OF assms refl] .
  show ?thesis
  proof (cases "copied \<noteq> size rl")
    case True
    then have fe: "first_error (size rl) copied None closeErr = Some (ErrorfCopied copied (size rl))"
      by (simp add: first_error_def)
    obtain evs where evs: "calls (destroyReadWriteLease E rwl ?W4) = calls ?W4 @ evs"
        "is_destroy_of rwl evs"
      using destroy_calls by blast
    from eq fe evs True show ?thesis by (simp add: new_calls_def)
  next
    case False
    with eq show ?thesis by (simp add: first_error_def split: option.splits)
  qed
qed

theorem size_mismatch_is_an_error_witness:
  "leaser_NewFile (scripted_env (Inr 7) (Inr 3) (3, None) (Some (ExternalError ''close'')) (Inr 5)
       None (Inr 9)) (ext W0) = (Inr 7, ()) \<and>
   user_f (scripted_env (Inr 7) (Inr 3) (3, None) (Some (ExternalError ''close'')) (Inr 5)
       None (Inr 9)) () = (Inr 3, ()) \<and>
   io_Copy (scripted_env (Inr 7) (Inr 3) (3, None) (Some (ExternalError ''close'')) (Inr 5)
       None (Inr 9)) 7 3 () = ((3, None), ()) \<and>
   rc_Close (scripted_env (Inr 7) (Inr 3) (3, None) (Some (ExternalError ''close'')) (Inr 5)
       None (Inr 9)) 3 () = (Some (ExternalError ''close''), ()) \<and>
   fst (getContents (scripted_env (Inr 7) (Inr 3) (3, None) (Some (ExternalError ''close''))
       (Inr 5) None (Inr 9)) (NewReadProxy 4) W0) = Inl (ErrorfCopied 3 4) \<and>
   is_destroy_of 7 (drop 4 (new_calls W0 (snd (getContents (scripted_env (Inr 7) (Inr 3)
       (3, None) (Some (ExternalError ''close'')) (Inr 5) None (Inr 9)) (NewReadProxy 4) W0))))"
proof -
  let ?E = "scripted_env (Inr 7) (Inr 3) (3, None) (Some (ExternalError ''close'')) (Inr 5)
       None (Inr 9)"
  have a: "leaser_NewFile ?E (ext W0) = (Inr 7, ())" by (simp add: scripted_env_def)
  have b: "user_f ?E () = (Inr 3, ())" by (simp add: scripted_env_def)
  have c: "io_Copy ?E 7 3 () = ((3, None), ())" by (simp add: scripted_env_def)
  have d: "rc_Close ?E 3 () = (Some (ExternalError ''close''), ())" by (simp add: scripted_env_def)
  from size_mismatch_is_an_error [OF a b c d, of "NewReadProxy 4"] a b c d show ?thesis
    by (simp add: NewReadProxy_def)
qed

subsection \<open>Claim C5: a failed derivation destroys the lease it allocated\<close>

text \<open>
  C5. Whenever \<open>getContents\<close> returns an error after the leaser handed out the lease
  \<open>rwl\<close>, the error is one of the four primary errors (user function, copy, size
  mismatch, close), the world returned is the one \<open>destroyReadWriteLease\<close> left, and the
  last two calls made are the destruction of \<open>rwl\<close>: its downgrade followed by the
  revocation of the read lease obtained, or its failed downgrade followed by the log
  line. A failure of the cleanup is logged and is not the error returned.
\<close>

theorem failed_derivation_destroys_lease:
  assumes "leaser_NewFile E (ext W) = (Inr rwl, x1)" and "getContents E rl W = (Inl err, W')"
  shows "primary_error err \<and> (\<exists>Wp. W' = destroyReadWriteLease E rwl Wp) \<and>
         is_destroy_of rwl (drop (length (new_calls W W') - 2) (new_calls W W'))"
proof -
  obtain uf x2 where uf: "user_f E x1 = (uf, x2)" by (cases "user_f E x1")
  show ?thesis
  proof (cases uf)
    case (Inl e)
    let ?W2 = "\<lparr>ext = x2, calls = calls W @ [EvNewFile (Inr rwl), EvUserF (Inl e)]\<rparr>"
    from assms uf Inl have r: "err = Errorf ''User function: %v'' e"
        "W' = destroyReadWriteLease E rwl ?W2"
      using getContents_f_fails [of E W rwl x1 e x2 rl] by simp_all
    have "calls ?W2 = calls W @ [EvNewFile (Inr rwl), EvUserF (Inl e)]" by simp
    from destroy_tail [OF this] r show ?thesis by auto
  next
    case rc: (Inr rc)
    obtain copied copyErr x3 where cp: "io_Copy E rwl rc x2 = ((copied, copyErr), x3)"
      by (cases "io_Copy E rwl rc x2") auto
    obtain closeErr x4 where cl: "rc_Close E rc x3 = (closeErr, x4)"
      by (cases "rc_Close E rc x3")
    let ?W4 = "\<lparr>ext = x4, calls = calls W @ [EvNewFile (Inr rwl), EvUserF (Inr rc),
          EvCopy rwl rc copied copyErr, EvClose rc closeErr]\<rparr>"
    have eq: "getContents E rl W =
       (case first_error (size rl) copied copyErr closeErr of
          None \<Rightarrow> (Inr rwl, ?W4) | Some e \<Rightarrow> (Inl e, destroyReadWriteLease E rwl ?W4))"
      using getContents_opened [OF assms(1) _ cp cl refl, of rl] uf rc by simp
    with assms(2) have r: "first_error (size rl) copied copyErr closeErr = Some err"
        "W' = destroyReadWriteLease E rwl ?W4"
      by (auto split: option.splits)
    have "calls ?W4 = calls W @ [EvNewFile (Inr rwl), EvUserF (Inr rc),
          EvCopy rwl rc copied copyErr, EvClose rc closeErr]" by simp
    from destroy_tail [OF this] r first_error_primary [OF r(1)] show ?thesis by auto
  qed
qed

theorem failed_derivation_destroys_lease_witness:
  "leaser_NewFile (scripted_env (Inr 7) (Inl (ExternalError ''fetch'')) (4, None) None
       (Inl (ExternalError ''busy'')) None (Inr 9)) (ext W0) = (Inr 7, ()) \<and>
   getContents (scripted_env (Inr 7) (Inl (ExternalError ''fetch'')) (4, None) None
       (Inl (ExternalError ''busy'')) None (Inr 9)) (NewReadProxy 4) W0 =
     (Inl (Errorf ''User function: %v'' (ExternalError ''fetch'')),
      \<lparr>ext = (), calls = [EvNewFile (Inr 7), EvUserF (Inl (ExternalError ''fetch'')),
         EvRwlDowngrade 7 (Inl (ExternalError ''busy'')),
         EvLogPrintf ''Error destroying read/write lease: %v''
           (Errorf ''Downgrade: %v'' (ExternalError ''busy''))]\<rparr>) \<and>
   primary_error (Errorf ''User function: %v'' (ExternalError ''fetch'')) \<and>
   is_destroy_of 7 (drop (length (new_calls W0
      \<lparr>ext = (), calls = [EvNewFile (Inr 7), EvUserF (Inl (ExternalError ''fetch'')),
         EvRwlDowngrade 7 (Inl (ExternalError ''busy'')),
         EvLogPrintf ''Error destroying read/write lease: %v''
           (Errorf ''Downgrade: %v'' (ExternalError ''busy''))]\<rparr>) - 2) (new_calls W0
      \<lparr>ext = (), calls = [EvNewFile (Inr 7), EvUserF (Inl (ExternalError ''fetch'')),
         EvRwlDowngrade 7 (Inl (ExternalError ''busy'')),
         EvLogPrintf ''Error destroying read/write lease: %v''
           (Errorf ''Downgrade: %v'' (ExternalError ''busy''))]\<rparr>))"
proof -
  let ?E = "scripted_env (Inr 7) (Inl (ExternalError ''fetch'')) (4, None) None
       (Inl (ExternalError ''busy'')) None (Inr 9)"
  have a: "leaser_NewFile ?E (ext W0) = (Inr 7, ())" by (simp add: scripted_env_def)
  have g: "getContents ?E (NewReadProxy 4) W0 =
     (Inl (Errorf ''User function: %v'' (ExternalError ''fetch'')),
      \<lparr>ext = (), calls = [EvNewFile (Inr 7), EvUserF (Inl (ExternalError ''fetch'')),
         EvRwlDowngrade 7 (Inl (ExternalError ''busy'')),
         EvLogPrintf ''Error destroying read/write lease: %v''
           (Errorf ''Downgrade: %v'' (ExternalError ''busy''))]\<rparr>)"
    by (simp add: call_defs code_defs)
  from failed_derivation_destroys_lease [OF a g] a g show ?thesis by simp
qed

subsection \<open>Claim C6: the first error wins, and the reader is always closed\<close>



subsection \<open>Claim C7: Upgrade retires the proxy exactly when it succeeds\<close>

text \<open>
  C7. On a proxy that is not revoked, \<open>Upgrade\<close> leaves \<open>revoked\<close> set if and only if
  it returns a read/write lease and no error; on every failing path the flag stays
  false.
\<close>

theorem Upgrade_retires_iff_success:
  assumes "\<not> revoked rl" and "Upgrade E rl W = (r, rl', W')"
  shows "revoked rl' \<longleftrightarrow> (\<exists>rwl. r = Inr rwl)"
  using assms
  by (auto simp: Upgrade_def Upgrade_deferred_def
      split: option.splits prod.splits sum.splits if_splits)

theorem Upgrade_retires_iff_success_witness:
  "\<not> revoked \<lparr>size = 4, revoked = False, wrapped = Some 1\<rparr> \<and>
   Upgrade (scripted_env (Inr 7) (Inl (ExternalError ''fetch'')) (4, None) None (Inr 5) None
       (Inl RevokedError)) \<lparr>size = 4, revoked = False, wrapped = Some 1\<rparr> W0 =
     (Inl (Errorf ''getContents: %v'' (Errorf ''User function: %v'' (ExternalError ''fetch''))),
      \<lparr>size = 4, revoked = False, wrapped = Some 1\<rparr>,
      \<lparr>ext = (), calls = [EvRlUpgrade 1 (Inl RevokedError), EvNewFile (Inr 7),
         EvUserF (Inl (ExternalError ''fetch'')), EvRwlDowngrade 7 (Inr 5), EvRlRevoke 5]\<rparr>) \<and>
   \<not> revoked \<lparr>size = 4, revoked = False, wrapped = Some 1\<rparr>"
proof -
  have u: "Upgrade (scripted_env (Inr 7) (Inl (ExternalError ''fetch'')) (4, None) None (Inr 5) None
       (Inl RevokedError)) \<lparr>size = 4, revoked = False, wrapped = Some 1\<rparr> W0 =
     (Inl (Errorf ''getContents: %v'' (Errorf ''User function: %v'' (ExternalError ''fetch''))),
      \<lparr>size = 4, revoked = False, wrapped = Some 1\<rparr>,
      \<lparr>ext = (), calls = [EvRlUpgrade 1 (Inl RevokedError), EvNewFile (Inr 7),
         EvUserF (Inl (ExternalError ''fetch'')), EvRwlDowngrade 7 (Inr 5), EvRlRevoke 5]\<rparr>)"
    by (simp add: call_defs code_defs)
  from Upgrade_retires_iff_success [OF _ u] u show ?thesis by simp
qed

subsection \<open>Claim C8: a downgrade that fails after a successful derivation\<close>

text \<open>
  C8, as claimed, fails in its last part. The claim has the slot empty after the failed
  downgrade. \<open>saveContents\<close> returns without assigning to \<open>wrapped\<close>, and nothing before
  it does: here the accessor got to the derivation because lease 1 answered
  \<open>RevokedError\<close>, the derivation succeeds, the downgrade fails, and the slot still holds
  lease 1.
\<close>

theorem failed_downgrade_counterexample:
  "step (scripted_env (Inr 7) (Inr 3) (4, None) None (Inl (ExternalError ''busy''))
       (Some RevokedError) (Inr 9)) (CallRead 0 [1, 2])
       \<lparr>size = 4, revoked = False, wrapped = Some 1\<rparr> W0 =
     (RetRead [1, 2] 2 None, \<lparr>size = 4, revoked = False, wrapped = Some 1\<rparr>,
      \<lparr>ext = (), calls = [EvRlRead 1 (Some RevokedError), EvNewFile (Inr 7), EvUserF (Inr 3),
         EvCopy 7 3 4 None, EvClose 3 None, EvRwlRead 7 None,
         EvRwlDowngrade 7 (Inl (ExternalError ''busy'')),
         EvLogPrintf ''Failed to downgrade write lease (%q); abandoning.''
           (ExternalError ''busy'')]\<rparr>) \<and>
   wrapped (fst (snd (step (scripted_env (Inr 7) (Inr 3) (4, None) None
       (Inl (ExternalError ''busy'')) (Some RevokedError) (Inr 9)) (CallRead 0 [1, 2])
       \<lparr>size = 4, revoked = False, wrapped = Some 1\<rparr> W0))) \<noteq> None"
  by (simp add: call_defs code_defs)

text \<open>
  C8, amended. When an accessor reaches the derivation (the slot was empty, or the held
  lease answered \<open>RevokedError\<close>), the derivation succeeds and the downgrade of the
  read/write lease then fails: the accessor returns what the read/write lease answered,
  unchanged; the failure is logged and nothing else follows it; and the proxy is exactly
  as it was before the call, so the slot is empty if it was empty and still holds the
  revoked lease otherwise.
\<close>

theorem failed_downgrade_is_only_logged:
  assumes "is_accessor c" and "recovery_entry E c rl W = Some (r0, W1)"
    and "getContents E rl W1 = (Inr rwl, W2)"
    and "fresh_call E c (ret_buffer r0) rwl W2 = (res, W3)"
    and "rwl_Downgrade E rwl (ext W3) = (Inl de, x4)"
  shows "step E c rl W =
           (res, rl,
            \<lparr>ext = x4,
             calls = calls W3 @ [EvRwlDowngrade rwl (Inl de),
               EvLogPrintf ''Failed to downgrade write lease (%q); abandoning.'' de]\<rparr>)"
proof -
  from assms(2) have nr: "\<not> revoked rl" by (auto simp: recovery_entry_def split: if_splits)
  have "saveContents E rwl rl W3 =
      (rl, \<lparr>ext = x4, calls = calls W3 @ [EvRwlDowngrade rwl (Inl de),
               EvLogPrintf ''Failed to downgrade write lease (%q); abandoning.'' de]\<rparr>)"
    using assms(5) by (simp add: saveContents_def call_Downgrade_def log_Printf_def record_call_def)
  with assms nr show ?thesis by (simp add: step_recovery derive_and_serve_def)
qed

theorem failed_downgrade_is_only_logged_witness:
  "is_accessor (CallReadAt 0 [1, 2] 1) \<and>
   recovery_entry (scripted_env (Inr 7) (Inr 3) (4, None) None (Inl (ExternalError ''busy''))
       None (Inr 9)) (CallReadAt 0 [1, 2] 1) (NewReadProxy 4) W0 =
     Some (RetReadAt [1, 2] 0 None, W0) \<and>
   getContents (scripted_env (Inr 7) (Inr 3) (4, None) None (Inl (ExternalError ''busy''))
       None (Inr 9)) (NewReadProxy 4) W0 =
     (Inr 7, \<lparr>ext = (), calls = [EvNewFile (Inr 7), EvUserF (Inr 3), EvCopy 7 3 4 None,
         EvClose 3 None]\<rparr>) \<and>
   step (scripted_env (Inr 7) (Inr 3) (4, None) None (Inl (ExternalError ''busy''))
       None (Inr 9)) (CallReadAt 0 [1, 2] 1) (NewReadProxy 4) W0 =
     (RetReadAt [1, 2] 2 None, NewReadProxy 4,
      \<lparr>ext = (), calls = [EvNewFile (Inr 7), EvUserF (Inr 3), EvCopy 7 3 4 None,
         EvClose 3 None, EvRwlReadAt 7 None, EvRwlDowngrade 7 (Inl (ExternalError ''busy'')),
         EvLogPrintf ''Failed to downgrade write lease (%q); abandoning.''
           (ExternalError ''busy'')]\<rparr>)"
proof -
  let ?E = "scripted_env (Inr 7) (Inr 3) (4, None) None (Inl (ExternalError ''busy''))
       None (Inr 9)"
  have a: "recovery_entry ?E (CallReadAt 0 [1, 2] 1) (NewReadProxy 4) W0 =
     Some (RetReadAt [1, 2] 0 None, W0)"
    by (simp add: recovery_entry_def NewReadProxy_def)
  have g: "getContents ?E (NewReadProxy 4) W0 =
     (Inr 7, \<lparr>ext = (), calls = [EvNewFile (Inr 7), EvUserF (Inr 3), EvCopy 7 3 4 None,
         EvClose 3 None]\<rparr>)"
    by (simp add: call_defs code_defs)
  have f: "fresh_call ?E (CallReadAt 0 [1, 2] 1) (ret_buffer (RetReadAt [1, 2] 0 None)) 7
       \<lparr>ext = (), calls = [EvNewFile (Inr 7), EvUserF (Inr 3), EvCopy 7 3 4 None,
         EvClose 3 None]\<rparr> =
     (RetReadAt [1, 2] 2 None,
      \<lparr>ext = (), calls = [EvNewFile (Inr 7), EvUserF (Inr 3), EvCopy 7 3 4 None,
         EvClose 3 None, EvRwlReadAt 7 None]\<rparr>)"
    by (simp add: call_defs code_defs)
  have d: "rwl_Downgrade ?E 7 (ext \<lparr>ext = (), calls = [EvNewFile (Inr 7), EvUserF (Inr 3),
         EvCopy 7 3 4 None, EvClose 3 None, EvRwlReadAt 7 None]\<rparr>) =
       (Inl (ExternalError ''busy''), ())"
    by (simp add: scripted_env_def)
  from failed_downgrade_is_only_logged [OF _ a g f d] a g show ?thesis by simp
qed

subsection \<open>Claim C9: the slot of a revoked proxy\<close>

text \<open>
  C9, as claimed, fails for \<open>Destroy\<close>, which has no test of \<open>revoked\<close>: it reads the slot
  and revokes the lease found there on every call. Called again after \<open>Destroy\<close> it
  revokes lease 1 a second time, and called after a successful \<open>Upgrade\<close> it revokes
  lease 1, which is still in the slot.
\<close>

theorem revoked_slot_counterexample:
  "run (scripted_env (Inr 7) (Inr 3) (4, None) None (Inr 5) None (Inr 9))
       [CallDestroy, CallDestroy] \<lparr>size = 4, revoked = False, wrapped = Some 1\<rparr> W0 =
     (\<lparr>size = 4, revoked = True, wrapped = Some 1\<rparr>,
      \<lparr>ext = (), calls = [EvRlRevoke 1, EvRlRevoke 1]\<rparr>) \<and>
   run (scripted_env (Inr 7) (Inr 3) (4, None) None (Inr 5) None (Inr 9))
       [CallUpgrade, CallDestroy] \<lparr>size = 4, revoked = False, wrapped = Some 1\<rparr> W0 =
     (\<lparr>size = 4, revoked = True, wrapped = Some 1\<rparr>,
      \<lparr>ext = (), calls = [EvRlUpgrade 1 (Inr 9), EvRlRevoke 1]\<rparr>)"
  by (simp add: call_defs code_defs)

text \<open>
  C9, amended. Once \<open>revoked\<close> is set, no sequence of operations replaces the slot; every
  operation but \<open>Destroy\<close> returns a result that is the same whatever the slot holds and
  leaves the proxy and the world as they are, so it does not read the slot; \<open>Destroy\<close>
  reads the slot and calls \<open>Revoke\<close> on the lease in it, if there is one.
\<close>

theorem revoked_proxy_keeps_its_slot:
  assumes "revoked rl" and "c \<noteq> CallDestroy"
  shows "wrapped (fst (run E cs rl W)) = wrapped rl \<and>
         (\<exists>r. \<forall>v. step E c (rl\<lparr>wrapped := v\<rparr>) W = (r, rl\<lparr>wrapped := v\<rparr>, W)) \<and>
         step E CallDestroy rl W =
           (RetDestroy, rl, (case wrapped rl of None \<Rightarrow> W | Some l \<Rightarrow> call_rl_Revoke E l W))"
proof -
  have "\<exists>r. \<forall>v. step E c (rl\<lparr>wrapped := v\<rparr>) W = (r, rl\<lparr>wrapped := v\<rparr>, W)"
    using assms
    by (cases c) (simp_all add: step_def Read_def Seek_def ReadAt_def Upgrade_def Size_def)
  moreover have "step E CallDestroy rl W =
      (RetDestroy, rl, (case wrapped rl of None \<Rightarrow> W | Some l \<Rightarrow> call_rl_Revoke E l W))"
    using assms(1) by (simp add: step_def Destroy_def Let_def split: option.splits)
  ultimately show ?thesis using run_keeps_revoked [OF assms(1)] by blast
qed

theorem revoked_proxy_keeps_its_slot_witness:
  "revoked \<lparr>size = 4, revoked = True, wrapped = Some 1\<rparr> \<and>
   wrapped (fst (run (scripted_env (Inr 7) (Inr 3) (4, None) None (Inr 5) None (Inr 9))
      [CallRead 0 [1, 2], CallUpgrade, CallDestroy, CallSeek 0 2 0]
      \<lparr>size = 4, revoked = True, wrapped = Some 1\<rparr> W0)) = Some 1 \<and>
   step (scripted_env (Inr 7) (Inr 3) (4, None) None (Inr 5) None (Inr 9)) CallUpgrade
      \<lparr>size = 4, revoked = True, wrapped = None\<rparr> W0 =
     (RetUpgrade (Inl RevokedError), \<lparr>size = 4, revoked = True, wrapped = None\<rparr>, W0) \<and>
   step (scripted_env (Inr 7) (Inr 3) (4, None) None (Inr 5) None (Inr 9)) CallDestroy
      \<lparr>size = 4, revoked = True, wrapped = Some 1\<rparr> W0 =
     (RetDestroy, \<lparr>size = 4, revoked = True, wrapped = Some 1\<rparr>,
      \<lparr>ext = (), calls = [EvRlRevoke 1]\<rparr>)"
  using revoked_proxy_keeps_its_slot [of "\<lparr>size = 4, revoked = True, wrapped = Some 1\<rparr>" CallUpgrade
      "scripted_env (Inr 7) (Inr 3) (4, None) None (Inr 5) None (Inr 9)"
      "[CallRead 0 [1, 2], CallUpgrade, CallDestroy, CallSeek 0 2 0]" W0]
  by (simp add: step_def Upgrade_def call_rl_Revoke_def record_call_def W0_def scripted_env_def)

subsection \<open>Claim C10: the context given to an accessor\<close>

text \<open>
  C10. The claim is that the context passed to \<open>Read\<close>, \<open>Seek\<close> or \<open>ReadAt\<close> is
  forwarded to the content function. In the source \<open>getContents\<close> has no context
  parameter and calls the content function without arguments, and no accessor uses its
  \<open>ctx\<close>: what an accessor returns, the proxy and the world afterwards (so every call made
  on the way, and what each call was given) are the same for any two contexts.
\<close>

theorem context_is_not_forwarded:
  "Read E ctx p rl W = Read E ctx' p rl W \<and>
   Seek E ctx offset whence rl W = Seek E ctx' offset whence rl W \<and>
   ReadAt E ctx p off rl W = ReadAt E ctx' p off rl W"
  by (simp add: Read_def Seek_def ReadAt_def)

end
